theory Spec2Isabelle
  imports Main
begin

section \<open>Tables\<close>

text \<open>
  A pandas cell is a string, a number or the missing-value marker \<open>nan\<close>. Column labels
  are cells as well: after the header repair of \<open>clean_employee_data\<close> the labels are
  the values of a data row. A \<open>DataFrame\<close> is its list of column labels and its rows;
  the row index is the default \<open>RangeIndex\<close> (\<open>reset_index(drop=True)\<close> restores it),
  so that a row's index label is its position.
\<close>

datatype cell = Str string | Num int | NaN

record dataframe =
  columns :: "cell list"
  rows :: "cell list list"

text \<open>Every row of a rectangular table has one cell per column.\<close>

definition wf_df :: "dataframe \<Rightarrow> bool" where
  "wf_df df = list_all (\<lambda>r. length r = length (columns df)) (rows df)"

text \<open>
  What the two functions can end with, apart from a table: the exceptions of pandas and
  of \<open>datetime\<close>, and \<open>MissingColumn c\<close> for the path
  \<open>st.error(f"Missing required column: {c}"); return None\<close>.
\<close>

datatype error = IndexError | ValueError | OverflowError | MissingColumn string

text \<open>\<open>df[c] = v\<close> for a scalar \<open>v\<close>: a new label is appended as the last column, an
  existing label has every column carrying it overwritten.\<close>

definition write_row :: "cell \<Rightarrow> cell \<Rightarrow> cell list \<Rightarrow> cell list \<Rightarrow> cell list" where
  "write_row c v cols r = map (\<lambda>(l, x). if l = c then v else x) (zip cols r)"

definition setitem_col :: "dataframe \<Rightarrow> cell \<Rightarrow> cell \<Rightarrow> dataframe" where
  "setitem_col df c v =
     (if c \<in> set (columns df)
      then df\<lparr>rows := map (write_row c v (columns df)) (rows df)\<rparr>
      else df\<lparr>columns := columns df @ [c], rows := map (\<lambda>r. r @ [v]) (rows df)\<rparr>)"

text \<open>\<open>df.at[idx, c] = v\<close> for a row \<open>idx\<close> of the index and an existing label \<open>c\<close>.\<close>

definition set_at :: "dataframe \<Rightarrow> nat \<Rightarrow> cell \<Rightarrow> cell \<Rightarrow> dataframe" where
  "set_at df idx c v =
     df\<lparr>rows := (rows df)[idx := write_row c v (columns df) (rows df ! idx)]\<rparr>"

text \<open>Reading \<open>df.at[idx, c]\<close>: the cell of row \<open>idx\<close> in the first column labelled \<open>c\<close>.\<close>

definition cell_at :: "dataframe \<Rightarrow> nat \<Rightarrow> cell \<Rightarrow> cell option" where
  "cell_at df idx c =
     (if idx < length (rows df) then map_of (zip (columns df) (rows df ! idx)) c else None)"

section \<open>Calendar dates\<close>

text \<open>
  \<open>datetime.date\<close> of the Python standard library: a date is its year, month and day,
  arithmetic goes through the proleptic Gregorian ordinal (1 January of year 1 is day 1),
  and the largest date is 9999-12-31, ordinal 3652059.
\<close>

record date =
  year :: int
  month :: int
  day :: int

definition DAYS_IN_MONTH :: "int list" where
  "DAYS_IN_MONTH = [-1, 31, 28, 31, 30, 31, 30, 31, 31, 30, 31, 30, 31]"

definition DAYS_BEFORE_MONTH :: "int list" where
  "DAYS_BEFORE_MONTH = [-1, 0, 31, 59, 90, 120, 151, 181, 212, 243, 273, 304, 334]"

definition MAXORDINAL :: int where
  "MAXORDINAL = 3652059"

definition is_leap :: "int \<Rightarrow> bool" where
  "is_leap y = (y mod 4 = 0 \<and> (y mod 100 \<noteq> 0 \<or> y mod 400 = 0))"

definition days_before_year :: "int \<Rightarrow> int" where
  "days_before_year yr = (let y = yr - 1 in y * 365 + y div 4 - y div 100 + y div 400)"

definition days_before_month :: "int \<Rightarrow> int \<Rightarrow> int" where
  "days_before_month yr m =
     DAYS_BEFORE_MONTH ! nat m + (if m > 2 \<and> is_leap yr then 1 else 0)"

definition ymd2ord :: "int \<Rightarrow> int \<Rightarrow> int \<Rightarrow> int" where
  "ymd2ord yr m d = days_before_year yr + days_before_month yr m + d"

definition ord2ymd :: "int \<Rightarrow> date" where
  "ord2ymd ordinal =
     (let n = ordinal - 1;
          n400 = n div 146097; n = n mod 146097;
          yr = n400 * 400 + 1;
          n100 = n div 36524; n = n mod 36524;
          n4 = n div 1461; n = n mod 1461;
          n1 = n div 365; n = n mod 365;
          yr = yr + n100 * 100 + n4 * 4 + n1
      in if n1 = 4 \<or> n100 = 4 then \<lparr>year = yr - 1, month = 12, day = 31\<rparr>
         else
           (let leapyear = (n1 = 3 \<and> (n4 \<noteq> 24 \<or> n100 = 3));
                m = (n + 50) div 32;
                preceding = DAYS_BEFORE_MONTH ! nat m + (if m > 2 \<and> leapyear then 1 else 0)
            in if preceding > n
               then (let m' = m - 1;
                         preceding' = preceding
                           - (DAYS_IN_MONTH ! nat m' + (if m' = 2 \<and> leapyear then 1 else 0))
                     in \<lparr>year = yr, month = m', day = n - preceding' + 1\<rparr>)
               else \<lparr>year = yr, month = m, day = n - preceding + 1\<rparr>))"

definition toordinal :: "date \<Rightarrow> int" where
  "toordinal d = ymd2ord (year d) (month d) (day d)"

text \<open>\<open>d + timedelta(days=i)\<close>.\<close>

definition date_add :: "date \<Rightarrow> int \<Rightarrow> error + date" where
  "date_add d i =
     (let ordinal = toordinal d + i
      in if 0 < ordinal \<and> ordinal \<le> MAXORDINAL then Inr (ord2ymd ordinal)
         else Inl OverflowError)"

text \<open>\<open>d.weekday()\<close>: Monday is 0.\<close>

definition weekday :: "date \<Rightarrow> int" where
  "weekday d = (toordinal d + 6) mod 7"

text \<open>\<open>strftime\<close> in the C locale: \<open>%A\<close>, \<open>%d\<close> and \<open>%b\<close>.\<close>

definition DAYNAMES :: "string list" where
  "DAYNAMES = [''Monday'', ''Tuesday'', ''Wednesday'', ''Thursday'', ''Friday'',
               ''Saturday'', ''Sunday'']"

definition MONTHNAMES :: "string list" where
  "MONTHNAMES = [''Jan'', ''Feb'', ''Mar'', ''Apr'', ''May'', ''Jun'',
                 ''Jul'', ''Aug'', ''Sep'', ''Oct'', ''Nov'', ''Dec'']"

definition digit_char :: "nat \<Rightarrow> char" where
  "digit_char k = ''0123456789'' ! k"

definition strftime_A :: "date \<Rightarrow> string" where
  "strftime_A d = DAYNAMES ! nat (weekday d)"

definition strftime_d :: "date \<Rightarrow> string" where
  "strftime_d d = [digit_char (nat (day d div 10)), digit_char (nat (day d mod 10))]"

definition strftime_b :: "date \<Rightarrow> string" where
  "strftime_b d = MONTHNAMES ! nat (month d - 1)"

section \<open>\<open>generate_roster\<close>\<close>

text \<open>\<open>[start_date + timedelta(days=i) for i in range(num_days)]\<close>: the first date out
  of range raises, before any column is written.\<close>

fun date_list :: "date \<Rightarrow> int list \<Rightarrow> error + date list" where
  "date_list start [] = Inr []"
| "date_list start (i # is) =
     (case date_add start i of
        Inl e \<Rightarrow> Inl e
      | Inr d \<Rightarrow> (case date_list start is of Inl e \<Rightarrow> Inl e | Inr ds \<Rightarrow> Inr (d # ds)))"

definition date_range :: "date \<Rightarrow> int \<Rightarrow> error + date list" where
  "date_range start_date num_days = date_list start_date (map int [0..<nat num_days])"

definition column_name :: "date \<Rightarrow> string" where
  "column_name d = take 3 (strftime_A d) @ '' '' @ strftime_d d @ ''-'' @ strftime_b d"

text \<open>The value the inner loop writes into row \<open>idx\<close> for a date.\<close>

definition shift_label :: "nat \<Rightarrow> date \<Rightarrow> string" where
  "shift_label idx d =
     (let day_name = strftime_A d; day_of_month = day d; is_even_row = (idx mod 2 = 0)
      in if is_even_row
         then (if day_name \<in> set [''Saturday'', ''Sunday''] then ''WO''
               else if day_of_month mod 2 = 0 then ''Day'' else ''Night'')
         else (if day_name \<in> set [''Tuesday'', ''Wednesday''] then ''WO''
               else if day_of_month mod 2 = 0 then ''Day'' else ''Night''))"

text \<open>One pass of the outer loop: create or reset the date's column, then write each row.\<close>

definition assign_date :: "date \<Rightarrow> dataframe \<Rightarrow> dataframe" where
  "assign_date d roster_df =
     (let c = Str (column_name d);
          roster_df = setitem_col roster_df c (Str '''')
      in fold (\<lambda>idx df. set_at df idx c (Str (shift_label idx d)))
              [0..<length (rows roster_df)] roster_df)"

definition generate_roster :: "dataframe \<Rightarrow> date \<Rightarrow> int \<Rightarrow> error + dataframe" where
  "generate_roster employee_df start_date num_days =
     (case date_range start_date num_days of
        Inl e \<Rightarrow> Inl e
      | Inr ds \<Rightarrow> Inr (fold assign_date ds employee_df))"

section \<open>\<open>clean_employee_data\<close>\<close>

subsection \<open>Strings\<close>

text \<open>\<open>s.startswith(p)\<close> and \<open>sub in s\<close>.\<close>

definition startswith :: "string \<Rightarrow> string \<Rightarrow> bool" where
  "startswith s p = (take (length p) s = p)"

fun str_contains :: "string \<Rightarrow> string \<Rightarrow> bool" where
  "str_contains sub [] = (sub = [])"
| "str_contains sub (c # cs) = (startswith (c # cs) sub \<or> str_contains sub cs)"

text \<open>
  \<open>s.strip()\<close>. A \<open>char\<close> stands for a code point below 256; the white space of
  \<open>str.isspace\<close> among these is the tab to carriage return range, the four separators
  from 0x1C, the space, the next-line control 0x85 and the no-break space 0xA0.
\<close>

definition is_space :: "char \<Rightarrow> bool" where
  "is_space c =
     (c \<in> set [CHR 0x09, CHR 0x0A, CHR 0x0B, CHR 0x0C, CHR 0x0D,
                CHR 0x1C, CHR 0x1D, CHR 0x1E, CHR 0x1F, CHR 0x20,
                CHR 0x85, CHR 0xA0])"

definition strip :: "string \<Rightarrow> string" where
  "strip s = rev (dropWhile is_space (rev (dropWhile is_space s)))"

text \<open>Decimal numerals, for \<open>str\<close> of a number.\<close>

function show_nat :: "nat \<Rightarrow> string" where
  "show_nat n =
     (if n < 10 then [digit_char n] else show_nat (n div 10) @ [digit_char (n mod 10)])"
  by pat_completeness auto
termination
  by (relation "measure id") auto

declare show_nat.simps [simp del]

definition show_int :: "int \<Rightarrow> string" where
  "show_int i = (if i < 0 then ''-'' @ show_nat (nat (- i)) else show_nat (nat i))"

text \<open>\<open>str(x)\<close> of a cell or label.\<close>

fun py_str :: "cell \<Rightarrow> string" where
  "py_str (Str s) = s"
| "py_str (Num i) = show_int i"
| "py_str NaN = ''nan''"

text \<open>
  \<open>str(values)\<close> of the \<open>object\<close> array of a row: the \<open>repr\<close> of each element,
  separated by spaces, in brackets. Of a row of more than 1000 elements (numpy's print
  threshold) only the first three and the last three are printed, with an ellipsis
  between them. A string's \<open>repr\<close> is the string in quotes. Two details of the printed
  form are left out, neither of which can change where the text Employee ID occurs:
  an escape sequence inside a \<open>repr\<close> starts with a backslash and has no capital
  letter, and the line break numpy puts into a long row stands between two elements.
\<close>

fun py_repr :: "cell \<Rightarrow> string" where
  "py_repr (Str s) = [CHR 0x27] @ s @ [CHR 0x27]"
| "py_repr c = py_str c"

fun join_space :: "string list \<Rightarrow> string" where
  "join_space [] = []"
| "join_space [s] = s"
| "join_space (s # t # ss) = s @ '' '' @ join_space (t # ss)"

definition np_words :: "cell list \<Rightarrow> string list" where
  "np_words r =
     (if length r > 1000
      then map py_repr (take 3 r) @ [''...''] @ map py_repr (drop (length r - 3) r)
      else map py_repr r)"

definition np_str :: "cell list \<Rightarrow> string" where
  "np_str r = ''['' @ join_space (np_words r) @ '']''"

subsection \<open>Table operations\<close>

text \<open>\<open>df.columns = new_columns\<close>: the number of labels has to match.\<close>

definition set_columns :: "dataframe \<Rightarrow> cell list \<Rightarrow> error + dataframe" where
  "set_columns df new_columns =
     (if length new_columns \<noteq> length (columns df) then Inl ValueError
      else Inr (df\<lparr>columns := new_columns\<rparr>))"

text \<open>\<open>df[keys]\<close> for labels that all exist: for each key in turn, every column that
  carries it.\<close>

definition label_positions :: "cell list \<Rightarrow> cell \<Rightarrow> nat list" where
  "label_positions cols k = filter (\<lambda>p. cols ! p = k) [0..<length cols]"

definition getitem_cols :: "dataframe \<Rightarrow> cell list \<Rightarrow> dataframe" where
  "getitem_cols df keys =
     (let ps = concat (map (label_positions (columns df)) keys)
      in \<lparr>columns = map (\<lambda>p. columns df ! p) ps,
          rows = map (\<lambda>r. map (\<lambda>p. r ! p) ps) (rows df)\<rparr>)"

text \<open>\<open>df.iloc[:, :k]\<close>.\<close>

definition iloc_cols :: "dataframe \<Rightarrow> nat \<Rightarrow> dataframe" where
  "iloc_cols df k = \<lparr>columns = take k (columns df), rows = map (take k) (rows df)\<rparr>"

text \<open>\<open>df.dropna(subset=labels, how='all')\<close> for labels that all exist: a row goes
  when every cell under one of the labels is missing.\<close>

definition dropna_all :: "dataframe \<Rightarrow> cell list \<Rightarrow> dataframe" where
  "dropna_all df labels =
     (let ps = filter (\<lambda>p. columns df ! p \<in> set labels) [0..<length (columns df)]
      in df\<lparr>rows := filter (\<lambda>r. \<not> list_all (\<lambda>p. r ! p = NaN) ps) (rows df)\<rparr>)"

subsection \<open>The steps of \<open>clean_employee_data\<close>\<close>

text \<open>Lines 87 to 91: \<open>df.iloc[0]\<close> raises on a table without rows.\<close>

definition marker_in_row :: "cell list \<Rightarrow> bool" where
  "marker_in_row r =
     (Str ''Employee ID'' \<in> set r \<or> str_contains ''Employee ID'' (np_str r))"

definition repair_header :: "dataframe \<Rightarrow> error + dataframe" where
  "repair_header df =
     (case rows df of
        [] \<Rightarrow> Inl IndexError
      | r # rs \<Rightarrow>
          if marker_in_row r then set_columns (df\<lparr>rows := rs\<rparr>) r else Inr df)"

text \<open>Lines 94 to 100: the test a label passes to enter \<open>columns_to_keep\<close>.\<close>

definition keep_label :: "cell \<Rightarrow> bool" where
  "keep_label col =
     (let col_str = strip (py_str col)
      in col_str \<notin> set [''2'', ''nan'', ''Unnamed''] \<and> \<not> startswith col_str ''Unnamed:''
         \<and> col_str \<in> set [''Employee ID'', ''NAME'', ''Department'', ''User ID'',
                            ''Status'', ''WINS''])"

text \<open>Lines 103 to 107: the positional layout when no label was kept.\<close>

definition positional_fallback ::
    "dataframe \<Rightarrow> cell list \<Rightarrow> error + dataframe \<times> cell list" where
  "positional_fallback df columns_to_keep =
     (if columns_to_keep = [] \<and> length (columns df) \<ge> 3
      then (case set_columns df
                   ([Str ''Employee ID'', Str ''User ID'', Str ''NAME'', Str ''Status'',
                     Str ''Department'', Str ''WINS''] @ drop 6 (columns df)) of
              Inl e \<Rightarrow> Inl e
            | Inr df' \<Rightarrow> Inr (df', [Str ''Employee ID'', Str ''NAME'', Str ''Department'']))
      else Inr (df, columns_to_keep))"

text \<open>Lines 110 to 115.\<close>

definition project_columns :: "dataframe \<Rightarrow> cell list \<Rightarrow> error + dataframe" where
  "project_columns df columns_to_keep =
     (if columns_to_keep \<noteq> [] then Inr (getitem_cols df columns_to_keep)
      else set_columns (iloc_cols df 3)
             [Str ''Employee ID'', Str ''NAME'', Str ''Department''])"

text \<open>Lines 87 to 115 together: the table \<open>df_clean\<close> that reaches the required-column
  check.\<close>

definition resolve_columns :: "dataframe \<Rightarrow> error + dataframe" where
  "resolve_columns df =
     (case repair_header df of
        Inl e \<Rightarrow> Inl e
      | Inr df1 \<Rightarrow>
          (case positional_fallback df1 (filter keep_label (columns df1)) of
             Inl e \<Rightarrow> Inl e
           | Inr (df2, columns_to_keep) \<Rightarrow> project_columns df2 columns_to_keep))"

text \<open>Lines 124 to 126.\<close>

definition add_department :: "dataframe \<Rightarrow> dataframe" where
  "add_department df_clean =
     (if Str ''Department'' \<notin> set (columns df_clean)
      then setitem_col df_clean (Str ''Department'') (Str ''Inbound'')
      else df_clean)"

text \<open>Lines 117 to 134: the first required column that is missing ends the function.\<close>

definition finish_clean :: "dataframe \<Rightarrow> error + dataframe" where
  "finish_clean df_clean =
     (case find (\<lambda>col. Str col \<notin> set (columns df_clean)) [''Employee ID'', ''NAME''] of
        Some col \<Rightarrow> Inl (MissingColumn col)
      | None \<Rightarrow>
          Inr (dropna_all (add_department df_clean) [Str ''Employee ID'', Str ''NAME'']))"

definition clean_employee_data :: "dataframe \<Rightarrow> error + dataframe" where
  "clean_employee_data df =
     (case resolve_columns df of Inl e \<Rightarrow> Inl e | Inr df_clean \<Rightarrow> finish_clean df_clean)"

text \<open>Lines 93 to 134 alone: what the function does with the table that the header
  repair of lines 87 to 91 hands on.\<close>

definition clean_repaired :: "dataframe \<Rightarrow> error + dataframe" where
  "clean_repaired df1 =
     (case positional_fallback df1 (filter keep_label (columns df1)) of
        Inl e \<Rightarrow> Inl e
      | Inr (df2, columns_to_keep) \<Rightarrow>
          (case project_columns df2 columns_to_keep of
             Inl e \<Rightarrow> Inl e
           | Inr df_clean \<Rightarrow> finish_clean df_clean))"

section \<open>Well-formed dates and example inputs\<close>

text \<open>The dates the constructor \<open>date(year, month, day)\<close> accepts.\<close>

definition days_in_month :: "int \<Rightarrow> int \<Rightarrow> int" where
  "days_in_month yr m = (if m = 2 \<and> is_leap yr then 29 else DAYS_IN_MONTH ! nat m)"

definition valid_date :: "date \<Rightarrow> bool" where
  "valid_date d =
     (1 \<le> year d \<and> year d \<le> 9999 \<and> 1 \<le> month d \<and> month d \<le> 12 \<and>
      1 \<le> day d \<and> day d \<le> days_in_month (year d) (month d))"

text \<open>The two employees of the concrete scenario, as \<open>clean_employee_data\<close> returns
  them.\<close>

definition example_employees :: dataframe where
  "example_employees =
     \<lparr>columns = [Str ''Employee ID'', Str ''NAME'', Str ''Department''],
      rows = [[Str ''E1'', Str ''Alice'', Str ''Inbound''],
              [Str ''E2'', Str ''Bob'', Str ''Inbound'']]\<rparr>"

text \<open>Their roster for the single day 2024-03-05, a Tuesday.\<close>

definition example_tuesday_roster :: dataframe where
  "example_tuesday_roster =
     \<lparr>columns = [Str ''Employee ID'', Str ''NAME'', Str ''Department'', Str ''Tue 05-Mar''],
      rows = [[Str ''E1'', Str ''Alice'', Str ''Inbound'', Str ''Night''],
              [Str ''E2'', Str ''Bob'', Str ''Inbound'', Str ''WO'']]\<rparr>"

text \<open>Their roster for the three days from 2024-02-28, across the end of February.\<close>

definition example_leap_roster :: dataframe where
  "example_leap_roster =
     \<lparr>columns = [Str ''Employee ID'', Str ''NAME'', Str ''Department'',
                 Str ''Wed 28-Feb'', Str ''Thu 29-Feb'', Str ''Fri 01-Mar''],
      rows = [[Str ''E1'', Str ''Alice'', Str ''Inbound'', Str ''Day'', Str ''Night'',
               Str ''Night''],
              [Str ''E2'', Str ''Bob'', Str ''Inbound'', Str ''WO'', Str ''Night'',
               Str ''Night'']]\<rparr>"

text \<open>Raw tables: one with a missing name and a blank row, one without a \<open>NAME\<close>
  column, one with six unknown labels, one whose first row is the header.\<close>

definition example_partial_rows :: dataframe where
  "example_partial_rows =
     \<lparr>columns = [Str ''Employee ID'', Str ''NAME''],
      rows = [[Str ''E1'', NaN], [NaN, NaN], [NaN, Str ''Bob'']]\<rparr>"

text \<open>What \<open>clean_employee_data\<close> returns for the first of them.\<close>

definition example_partial_clean :: dataframe where
  "example_partial_clean =
     \<lparr>columns = [Str ''Employee ID'', Str ''NAME'', Str ''Department''],
      rows = [[Str ''E1'', NaN, Str ''Inbound''], [NaN, Str ''Bob'', Str ''Inbound'']]\<rparr>"

definition example_no_name :: dataframe where
  "example_no_name =
     \<lparr>columns = [Str ''Employee ID'', Str ''Status''], rows = [[Str ''E1'', Str ''ok'']]\<rparr>"

definition example_six_unknown :: dataframe where
  "example_six_unknown =
     \<lparr>columns = [Str ''c1'', Str ''c2'', Str ''c3'', Str ''c4'', Str ''c5'', Str ''c6''],
      rows = [[Str ''a'', Str ''b'', Str ''c'', Str ''d'', Str ''e'', Str ''f'']]\<rparr>"

definition example_banner :: dataframe where
  "example_banner =
     \<lparr>columns = [Str ''Unnamed: 0'', Str ''Unnamed: 1''],
      rows = [[Str ''Employee ID'', Str ''NAME''], [Str ''E1'', Str ''Alice'']]\<rparr>"

text \<open>
  \<open>column_filled df c f\<close>: the label \<open>c\<close> exists, and every column that carries it
  holds \<open>f i\<close> in row \<open>i\<close>.
\<close>

definition column_filled :: "dataframe \<Rightarrow> cell \<Rightarrow> (nat \<Rightarrow> cell) \<Rightarrow> bool" where
  "column_filled df c f =
     (c \<in> set (columns df) \<and>
      (\<forall>i < length (rows df). \<forall>p < length (columns df).
         columns df ! p = c \<longrightarrow> rows df ! i ! p = f i))"

section \<open>Writing a date column\<close>

lemma write_row_length:
  "length r = length cols \<Longrightarrow> length (write_row c v cols r) = length cols"
  by (simp add: write_row_def)

lemma write_row_nth:
  "length r = length cols \<Longrightarrow> p < length cols \<Longrightarrow>
   write_row c v cols r ! p = (if cols ! p = c then v else r ! p)"
  by (simp add: write_row_def)

lemma wf_df_nth:
  "wf_df df \<Longrightarrow> i < length (rows df) \<Longrightarrow> length (rows df ! i) = length (columns df)"
  by (simp add: wf_df_def list_all_length)

text \<open>The inner loop after its first \<open>k\<close> rows.\<close>

lemma fold_set_at:
  "k \<le> length (rows df) \<Longrightarrow>
   columns (fold (\<lambda>idx df. set_at df idx c (f idx)) [0..<k] df) = columns df \<and>
   length (rows (fold (\<lambda>idx df. set_at df idx c (f idx)) [0..<k] df)) = length (rows df) \<and>
   (\<forall>i < length (rows df).
      rows (fold (\<lambda>idx df. set_at df idx c (f idx)) [0..<k] df) ! i =
        (if i < k then write_row c (f i) (columns df) (rows df ! i) else rows df ! i))"
proof (induction k)
  case 0
  then show ?case by simp
next
  case (Suc k)
  then show ?case
    by (auto simp: set_at_def nth_list_update less_Suc_eq)
qed

lemma setitem_col_props:
  assumes "wf_df df"
  shows "wf_df (setitem_col df c v)"
    and "length (rows (setitem_col df c v)) = length (rows df)"
    and "c \<in> set (columns (setitem_col df c v))"
    and "columns (setitem_col df c v) =
           (if c \<in> set (columns df) then columns df else columns df @ [c])"
  using assms by (auto simp: setitem_col_def wf_df_def list_all_iff write_row_def)

lemma assign_date_shape:
  assumes "wf_df df"
  shows "wf_df (assign_date d df)"
    and "length (rows (assign_date d df)) = length (rows df)"
    and "columns (assign_date d df) =
           (if Str (column_name d) \<in> set (columns df) then columns df
            else columns df @ [Str (column_name d)])"
proof -
  let ?c = "Str (column_name d)"
  let ?df1 = "setitem_col df ?c (Str [])"
  let ?f = "\<lambda>idx. Str (shift_label idx d)"
  have eq: "assign_date d df =
      fold (\<lambda>idx df. set_at df idx ?c (?f idx)) [0..<length (rows ?df1)] ?df1"
    by (simp add: assign_date_def Let_def)
  note F = fold_set_at[of "length (rows ?df1)" ?df1 ?c ?f, simplified]
  note S = setitem_col_props[OF assms, of ?c "Str []"]
  show "length (rows (assign_date d df)) = length (rows df)"
    using F S by (simp add: eq)
  show "columns (assign_date d df) =
           (if ?c \<in> set (columns df) then columns df else columns df @ [?c])"
    using F S(4) by (simp add: eq)
  show "wf_df (assign_date d df)"
    unfolding wf_df_def list_all_length
  proof (intro allI impI)
    fix i assume "i < length (rows (assign_date d df))"
    then have i: "i < length (rows ?df1)" using F by (simp add: eq)
    then have "rows (assign_date d df) ! i =
        write_row ?c (?f i) (columns ?df1) (rows ?df1 ! i)"
      using F by (simp add: eq)
    moreover have "length (rows ?df1 ! i) = length (columns ?df1)"
      using wf_df_nth[OF S(1) i] .
    ultimately show
      "length (rows (assign_date d df) ! i) = length (columns (assign_date d df))"
      using F by (simp add: eq write_row_length)
  qed
qed

lemma assign_date_cell:
  assumes "wf_df df" "i < length (rows df)" "p < length (columns (assign_date d df))"
  shows "rows (assign_date d df) ! i ! p =
           (if columns (assign_date d df) ! p = Str (column_name d)
            then Str (shift_label i d) else rows df ! i ! p)"
proof -
  let ?c = "Str (column_name d)"
  let ?df1 = "setitem_col df ?c (Str [])"
  let ?f = "\<lambda>idx. Str (shift_label idx d)"
  have eq: "assign_date d df =
      fold (\<lambda>idx df. set_at df idx ?c (?f idx)) [0..<length (rows ?df1)] ?df1"
    by (simp add: assign_date_def Let_def)
  note F = fold_set_at[of "length (rows ?df1)" ?df1 ?c ?f, simplified]
  note S = setitem_col_props[OF assms(1), of ?c "Str []"]
  have i: "i < length (rows ?df1)" using S(2) assms(2) by simp
  have cols: "columns (assign_date d df) = columns ?df1" using F by (simp add: eq)
  have p: "p < length (columns ?df1)" using assms(3) cols by simp
  have row: "rows (assign_date d df) ! i =
      write_row ?c (?f i) (columns ?df1) (rows ?df1 ! i)"
    using F i by (simp add: eq)
  have len: "length (rows ?df1 ! i) = length (columns ?df1)"
    using wf_df_nth[OF S(1) i] .
  have "rows (assign_date d df) ! i ! p =
      (if columns ?df1 ! p = ?c then ?f i else rows ?df1 ! i ! p)"
    using row write_row_nth[OF len p] by simp
  moreover have "columns ?df1 ! p \<noteq> ?c \<Longrightarrow> rows ?df1 ! i ! p = rows df ! i ! p"
  proof (cases "?c \<in> set (columns df)")
    case True
    assume ne: "columns ?df1 ! p \<noteq> ?c"
    from True have "rows ?df1 ! i = write_row ?c (Str []) (columns df) (rows df ! i)"
      and "columns ?df1 = columns df"
      using assms(2) by (simp_all add: setitem_col_def)
    then show ?thesis using ne p wf_df_nth[OF assms(1,2)] by (simp add: write_row_nth)
  next
    case False
    assume ne: "columns ?df1 ! p \<noteq> ?c"
    from False have r: "rows ?df1 ! i = rows df ! i @ [Str []]"
      and c: "columns ?df1 = columns df @ [?c]"
      using assms(2) by (simp_all add: setitem_col_def)
    from ne c p have "p < length (columns df)"
      by (auto simp: nth_append split: if_splits)
    then show ?thesis using r wf_df_nth[OF assms(1,2)] by (simp add: nth_append)
  qed
  ultimately show ?thesis using cols by simp
qed

text \<open>A later date of the horizon with the same column name writes into the same
  columns.\<close>

lemma assign_date_fills:
  assumes "wf_df df"
  shows "column_filled (assign_date d df) (Str (column_name d)) (\<lambda>i. Str (shift_label i d))"
  unfolding column_filled_def
  using assign_date_shape[OF assms, of d] assign_date_cell[OF assms, of _ _ d]
  by auto

lemma assign_date_keeps:
  assumes "wf_df df" "column_filled df c f"
    and "c = Str (column_name d) \<Longrightarrow> \<forall>i. f i = Str (shift_label i d)"
  shows "column_filled (assign_date d df) c f"
  unfolding column_filled_def
proof (intro conjI allI impI)
  show "c \<in> set (columns (assign_date d df))"
    using assms(2) assign_date_shape(3)[OF assms(1), of d] by (auto simp: column_filled_def)
next
  fix i p
  assume i: "i < length (rows (assign_date d df))"
    and p: "p < length (columns (assign_date d df))"
    and l: "columns (assign_date d df) ! p = c"
  have i': "i < length (rows df)" using i assign_date_shape(2)[OF assms(1)] by simp
  show "rows (assign_date d df) ! i ! p = f i"
  proof (cases "c = Str (column_name d)")
    case True
    then show ?thesis using assign_date_cell[OF assms(1) i' p] l assms(3) by simp
  next
    case False
    then have "p < length (columns df) \<and> columns df ! p = c"
      using p l assign_date_shape(3)[OF assms(1), of d]
      by (auto simp: nth_append split: if_splits)
    then show ?thesis
      using assign_date_cell[OF assms(1) i' p] l False assms(2) i'
      by (simp add: column_filled_def)
  qed
qed

lemma fold_assign_date_shape:
  "wf_df df \<Longrightarrow> wf_df (fold assign_date ds df) \<and>
     length (rows (fold assign_date ds df)) = length (rows df)"
  by (induction ds arbitrary: df) (simp_all add: assign_date_shape)

lemma fold_assign_date_keeps:
  "wf_df df \<Longrightarrow> column_filled df c f \<Longrightarrow>
   (\<And>d. d \<in> set ds \<Longrightarrow> c = Str (column_name d) \<Longrightarrow> \<forall>i. f i = Str (shift_label i d)) \<Longrightarrow>
   column_filled (fold assign_date ds df) c f"
proof (induction ds arbitrary: df)
  case Nil
  then show ?case by simp
next
  case (Cons d ds)
  have "column_filled (assign_date d df) c f"
    using Cons.prems by (intro assign_date_keeps) auto
  then show ?case
    using Cons.prems Cons.IH[of "assign_date d df"] by (simp add: assign_date_shape)
qed

section \<open>A column name fixes the weekday and the parity of the day\<close>

lemma weekday_range: "0 \<le> weekday d \<and> weekday d < 7"
  by (simp add: weekday_def)

lemma lt7_cases:
  "k < (7::nat) \<Longrightarrow> k = 0 \<or> k = 1 \<or> k = 2 \<or> k = 3 \<or> k = 4 \<or> k = 5 \<or> k = 6"
  by arith

lemma dayname_abbrev_length: "k < 7 \<Longrightarrow> length (take 3 (DAYNAMES ! k)) = 3"
  by (drule lt7_cases) (auto simp: DAYNAMES_def)

lemma dayname_abbrev_inj:
  "j < 7 \<Longrightarrow> k < 7 \<Longrightarrow> take 3 (DAYNAMES ! j) = take 3 (DAYNAMES ! k) \<Longrightarrow> j = k"
  apply (drule lt7_cases)
  apply (drule lt7_cases)
  apply (elim disjE)
  apply (simp_all add: DAYNAMES_def)
  done

lemma digit_char_inj: "j < 10 \<Longrightarrow> k < 10 \<Longrightarrow> digit_char j = digit_char k \<Longrightarrow> j = k"
proof -
  assume a: "j < 10" "k < 10" "digit_char j = digit_char k"
  have "distinct ''0123456789''" by simp
  then show ?thesis using a
    unfolding digit_char_def by (simp add: nth_eq_iff_index_eq)
qed

lemma column_name_determines:
  assumes "column_name d = column_name e"
  shows "strftime_A d = strftime_A e \<and> day d mod 2 = day e mod 2"
proof -
  let ?j = "nat (weekday d)" and ?k = "nat (weekday e)"
  have j: "?j < 7" and k: "?k < 7" using weekday_range[of d] weekday_range[of e] by auto
  have len: "length (take 3 (strftime_A d)) = length (take 3 (strftime_A e))"
    using dayname_abbrev_length[OF j] dayname_abbrev_length[OF k] by (simp add: strftime_A_def)
  from assms have
    "take 3 (strftime_A d) @ ('' '' @ strftime_d d @ ''-'' @ strftime_b d) =
     take 3 (strftime_A e) @ ('' '' @ strftime_d e @ ''-'' @ strftime_b e)"
    by (simp add: column_name_def)
  then have ab: "take 3 (strftime_A d) = take 3 (strftime_A e)"
    and rest: "'' '' @ strftime_d d @ ''-'' @ strftime_b d =
               '' '' @ strftime_d e @ ''-'' @ strftime_b e"
    using len by simp_all
  from ab have "?j = ?k"
    using dayname_abbrev_inj[OF j k] by (simp add: strftime_A_def)
  then have A: "strftime_A d = strftime_A e" by (simp add: strftime_A_def)
  from rest have "digit_char (nat (day d mod 10)) = digit_char (nat (day e mod 10))"
    by (simp add: strftime_d_def)
  then have "nat (day d mod 10) = nat (day e mod 10)"
    by (intro digit_char_inj) simp_all
  then have "day d mod 10 = day e mod 10" by simp
  then have "day d mod 10 mod 2 = day e mod 10 mod 2" by simp
  then have "day d mod 2 = day e mod 2" by (simp add: mod_mod_cancel)
  with A show ?thesis by simp
qed

lemma column_name_shift_label:
  "column_name d = column_name e \<Longrightarrow> shift_label i d = shift_label i e"
  using column_name_determines[of d e] by (simp add: shift_label_def Let_def)

section \<open>Every cell of the roster\<close>

lemma fold_assign_date_fills:
  assumes "wf_df df" "d \<in> set ds"
  shows "column_filled (fold assign_date ds df) (Str (column_name d))
           (\<lambda>i. Str (shift_label i d))"
proof -
  from assms(2) obtain xs ys where ds: "ds = xs @ d # ys" by (auto simp: in_set_conv_decomp)
  let ?df1 = "fold assign_date xs df"
  have wf1: "wf_df ?df1" using fold_assign_date_shape[OF assms(1)] by simp
  have wf2: "wf_df (assign_date d ?df1)" using assign_date_shape(1)[OF wf1] .
  have "column_filled (fold assign_date ys (assign_date d ?df1)) (Str (column_name d))
          (\<lambda>i. Str (shift_label i d))"
    using wf2 assign_date_fills[OF wf1, of d]
  proof (rule fold_assign_date_keeps)
    fix e assume "Str (column_name d) = Str (column_name e)"
    then have "column_name d = column_name e" by simp
    then show "\<forall>i. Str (shift_label i d) = Str (shift_label i e)"
      using column_name_shift_label[of d e] by simp
  qed
  then show ?thesis by (simp add: ds)
qed

lemma column_filled_cell_at:
  assumes "wf_df df" "column_filled df c f" "i < length (rows df)"
  shows "cell_at df i c = Some (f i)"
proof -
  let ?r = "rows df ! i"
  have len: "length ?r = length (columns df)" using wf_df_nth[OF assms(1,3)] .
  from assms(2) have "c \<in> set (columns df)" by (simp add: column_filled_def)
  then have "c \<in> fst ` set (zip (columns df) ?r)"
    using len by (metis map_fst_zip set_map)
  then obtain v where v: "map_of (zip (columns df) ?r) c = Some v"
    by (metis map_of_eq_None_iff not_Some_eq)
  then have "(c, v) \<in> set (zip (columns df) ?r)" by (rule map_of_SomeD)
  then obtain p where "p < length (columns df)" "columns df ! p = c" "?r ! p = v"
    using len by (auto simp: in_set_zip)
  then have "v = f i" using assms(2,3) by (auto simp: column_filled_def)
  with v show ?thesis using assms(3) by (simp add: cell_at_def)
qed

lemma date_list_Inr:
  "date_list start is = Inr ds \<Longrightarrow> i \<in> set is \<Longrightarrow> date_add start i = Inr d \<Longrightarrow> d \<in> set ds"
  by (induction "is" arbitrary: ds) (auto split: sum.splits)

lemma generate_roster_cell:
  assumes "generate_roster employee_df start_date num_days = Inr g"
    and "wf_df employee_df" and "idx < length (rows employee_df)"
    and "0 \<le> k" and "k < num_days" and "date_add start_date k = Inr d"
  shows "cell_at g idx (Str (column_name d)) = Some (Str (shift_label idx d))"
proof -
  from assms(1) obtain ds where ds: "date_range start_date num_days = Inr ds"
    and g: "g = fold assign_date ds employee_df"
    by (auto simp: generate_roster_def split: sum.splits)
  have kin: "k \<in> set (map int [0..<nat num_days])"
    using assms(4,5) by (auto simp: image_iff intro!: bexI[of _ "nat k"])
  have "d \<in> set ds"
    using date_list_Inr[OF ds[unfolded date_range_def] kin assms(6)] .
  then have h: "column_filled g (Str (column_name d)) (\<lambda>i. Str (shift_label i d))"
    unfolding g using assms(2) by (intro fold_assign_date_fills)
  have wf: "wf_df g" and i: "idx < length (rows g)"
    unfolding g using fold_assign_date_shape[OF assms(2)] assms(3) by simp_all
  show ?thesis using column_filled_cell_at[OF wf h i] .
qed

section \<open>The roster of a concrete week\<close>

text \<open>
  C1. For the employees E1 "Alice" and E2 "Bob", the start date 2024-03-01 and a horizon
  of 7 days, \<open>generate_roster\<close> returns exactly this grid: Alice (row 0) has Night, WO,
  WO, Day, Night, Day, Night for 1 to 7 March and Bob (row 1) has Night, Day, Night, Day,
  WO, WO, Night, where Day, Night and WO are the code's labels for a day shift, a night
  shift and a week off.
\<close>

theorem generate_roster_alice_bob:
  "generate_roster
     \<lparr>columns = [Str ''Employee ID'', Str ''NAME'', Str ''Department''],
      rows = [[Str ''E1'', Str ''Alice'', Str ''Inbound''],
              [Str ''E2'', Str ''Bob'', Str ''Inbound'']]\<rparr>
     \<lparr>year = 2024, month = 3, day = 1\<rparr> 7
   = Inr \<lparr>columns = [Str ''Employee ID'', Str ''NAME'', Str ''Department'',
                     Str ''Fri 01-Mar'', Str ''Sat 02-Mar'', Str ''Sun 03-Mar'',
                     Str ''Mon 04-Mar'', Str ''Tue 05-Mar'', Str ''Wed 06-Mar'',
                     Str ''Thu 07-Mar''],
          rows = [[Str ''E1'', Str ''Alice'', Str ''Inbound'',
                   Str ''Night'', Str ''WO'', Str ''WO'', Str ''Day'', Str ''Night'',
                   Str ''Day'', Str ''Night''],
                  [Str ''E2'', Str ''Bob'', Str ''Inbound'',
                   Str ''Night'', Str ''Day'', Str ''Night'', Str ''Day'', Str ''WO'',
                   Str ''WO'', Str ''Night'']]\<rparr>"
  by code_simp

section \<open>Week-off days and shifts\<close>

text \<open>
  C2. For every employee table, start date and horizon for which \<open>generate_roster\<close>
  returns, every row \<open>idx\<close> and every day \<open>k\<close> of the horizon: the cell of row \<open>idx\<close>
  under the column of the date \<open>start_date + k\<close> is WO exactly when \<open>idx\<close> is even and
  the date is a Saturday or Sunday, or \<open>idx\<close> is odd and the date is a Tuesday or
  Wednesday, whatever the month and year.
\<close>

theorem generate_roster_week_off:
  assumes "generate_roster employee_df start_date num_days = Inr g"
    and "wf_df employee_df" and "idx < length (rows employee_df)"
    and "0 \<le> k" and "k < num_days" and "date_add start_date k = Inr d"
  shows "cell_at g idx (Str (column_name d)) = Some (Str ''WO'') \<longleftrightarrow>
           (idx mod 2 = 0 \<and> (strftime_A d = ''Saturday'' \<or> strftime_A d = ''Sunday'')) \<or>
           (idx mod 2 \<noteq> 0 \<and> (strftime_A d = ''Tuesday'' \<or> strftime_A d = ''Wednesday''))"
  using generate_roster_cell[OF assms]
  by (auto simp: shift_label_def Let_def)

theorem generate_roster_week_off_witness:
  "generate_roster example_employees \<lparr>year = 2024, month = 3, day = 5\<rparr> 1
     = Inr example_tuesday_roster \<and>
   strftime_A \<lparr>year = 2024, month = 3, day = 5\<rparr> = ''Tuesday'' \<and>
   cell_at example_tuesday_roster 1 (Str (column_name \<lparr>year = 2024, month = 3, day = 5\<rparr>))
     = Some (Str ''WO'')"
proof -
  let ?D = "\<lparr>year = 2024, month = 3, day = 5\<rparr>"
  have g: "generate_roster example_employees ?D 1 = Inr example_tuesday_roster"
    by code_simp
  have wf: "wf_df example_employees" by code_simp
  have i: "1 < length (rows example_employees)" by (simp add: example_employees_def)
  have d: "date_add ?D 0 = Inr ?D" by code_simp
  have A: "strftime_A ?D = ''Tuesday''" by code_simp
  have "cell_at example_tuesday_roster 1 (Str (column_name ?D)) = Some (Str ''WO'')"
    using generate_roster_week_off[OF g wf i _ _ d] A by simp
  with g A show ?thesis by simp
qed

text \<open>
  C3. For every date \<open>start_date + k\<close> of the horizon that is not a week-off day of row
  \<open>idx\<close>, the cell is Day when the day of the month of that date is even and Night when
  it is odd; the date is the calendar date \<open>k\<close> days after the start, so the day of the
  month is that of the date's own month.
\<close>

theorem generate_roster_work_shift:
  assumes "generate_roster employee_df start_date num_days = Inr g"
    and "wf_df employee_df" and "idx < length (rows employee_df)"
    and "0 \<le> k" and "k < num_days" and "date_add start_date k = Inr d"
    and "\<not> ((idx mod 2 = 0 \<and> (strftime_A d = ''Saturday'' \<or> strftime_A d = ''Sunday'')) \<or>
             (idx mod 2 \<noteq> 0 \<and> (strftime_A d = ''Tuesday'' \<or> strftime_A d = ''Wednesday'')))"
  shows "d = ord2ymd (toordinal start_date + k) \<and>
         cell_at g idx (Str (column_name d)) =
           Some (Str (if day d mod 2 = 0 then ''Day'' else ''Night''))"
proof -
  have "d = ord2ymd (toordinal start_date + k)"
    using assms(6) by (auto simp: date_add_def Let_def split: if_splits)
  moreover have "shift_label idx d = (if day d mod 2 = 0 then ''Day'' else ''Night'')"
    using assms(7) by (auto simp: shift_label_def Let_def)
  ultimately show ?thesis
    using generate_roster_cell[OF assms(1-6)] by simp
qed

theorem generate_roster_work_shift_witness:
  "generate_roster example_employees \<lparr>year = 2024, month = 2, day = 28\<rparr> 3
     = Inr example_leap_roster \<and>
   date_add \<lparr>year = 2024, month = 2, day = 28\<rparr> 2 = Inr \<lparr>year = 2024, month = 3, day = 1\<rparr> \<and>
   strftime_A \<lparr>year = 2024, month = 3, day = 1\<rparr> = ''Friday'' \<and>
   cell_at example_leap_roster 0 (Str (column_name \<lparr>year = 2024, month = 3, day = 1\<rparr>))
     = Some (Str ''Night'')"
proof -
  let ?S = "\<lparr>year = 2024, month = 2, day = 28\<rparr>"
  let ?D = "\<lparr>year = 2024, month = 3, day = 1\<rparr>"
  have g: "generate_roster example_employees ?S 3 = Inr example_leap_roster"
    by code_simp
  have wf: "wf_df example_employees" by code_simp
  have i: "0 < length (rows example_employees)" by (simp add: example_employees_def)
  have k: "(0::int) \<le> 2" "(2::int) < 3" by simp_all
  have d: "date_add ?S 2 = Inr ?D" by code_simp
  have A: "strftime_A ?D = ''Friday''" by code_simp
  have n: "\<not> ((0 mod 2 = (0::nat) \<and> (strftime_A ?D = ''Saturday'' \<or> strftime_A ?D = ''Sunday'')) \<or>
             (0 mod 2 \<noteq> (0::nat) \<and> (strftime_A ?D = ''Tuesday'' \<or> strftime_A ?D = ''Wednesday'')))"
    by (simp add: A)
  have "cell_at example_leap_roster 0 (Str (column_name ?D)) = Some (Str ''Night'')"
    using generate_roster_work_shift[OF g wf i k d n, THEN conjunct2] by simp
  with g d A show ?thesis by simp
qed

section \<open>Totality of \<open>generate_roster\<close>\<close>

lemma days_before_year_nonneg: "1 \<le> yr \<Longrightarrow> 0 \<le> days_before_year yr"
proof -
  assume "1 \<le> yr"
  then have y: "0 \<le> yr - 1" by simp
  have "(yr - 1) div 100 \<le> (yr - 1) div 4"
    using y by (simp add: zdiv_mono2)
  moreover have "0 \<le> (yr - 1) div 400" "0 \<le> (yr - 1) * 365" using y by simp_all
  ultimately show ?thesis by (simp add: days_before_year_def Let_def)
qed

lemma days_before_month_nonneg: "1 \<le> m \<Longrightarrow> m \<le> 12 \<Longrightarrow> 0 \<le> days_before_month yr m"
proof -
  assume "1 \<le> m" "m \<le> 12"
  then have "m = 1 \<or> m = 2 \<or> m = 3 \<or> m = 4 \<or> m = 5 \<or> m = 6 \<or> m = 7 \<or> m = 8 \<or> m = 9
      \<or> m = 10 \<or> m = 11 \<or> m = 12" by arith
  then show ?thesis
    by (elim disjE) (simp_all add: days_before_month_def DAYS_BEFORE_MONTH_def)
qed

lemma valid_date_toordinal: "valid_date d \<Longrightarrow> 0 < toordinal d"
  using days_before_year_nonneg[of "year d"] days_before_month_nonneg[of "month d" "year d"]
  by (simp add: valid_date_def toordinal_def ymd2ord_def)

lemma date_list_total:
  "(\<And>i. i \<in> set is \<Longrightarrow> 0 < toordinal start + i \<and> toordinal start + i \<le> MAXORDINAL) \<Longrightarrow>
   \<exists>ds. date_list start is = Inr ds"
  by (induction "is") (auto simp: date_add_def Let_def)

text \<open>
  C9, as the code has it. \<open>generate_roster\<close> returns a roster with every employee row
  for every rectangular employee table, every valid start date and every horizon whose
  last date \<open>start_date + (num_days - 1)\<close> is not after 9999-12-31, the last date of the
  calendar; with a horizon of zero days (or fewer) it returns the employee table as it
  is, without a date column.
\<close>

theorem generate_roster_total:
  assumes "wf_df employee_df" and "valid_date start_date"
    and "num_days \<le> 0 \<or> toordinal start_date + (num_days - 1) \<le> MAXORDINAL"
  shows "(\<exists>g. generate_roster employee_df start_date num_days = Inr g \<and> wf_df g \<and>
              length (rows g) = length (rows employee_df)) \<and>
         (num_days \<le> 0 \<longrightarrow>
            generate_roster employee_df start_date num_days = Inr employee_df)"
proof
  have "\<exists>ds. date_list start_date (map int [0..<nat num_days]) = Inr ds"
  proof (rule date_list_total)
    fix i assume "i \<in> set (map int [0..<nat num_days])"
    then have "0 \<le> i" "i < num_days" by auto
    then show "0 < toordinal start_date + i \<and> toordinal start_date + i \<le> MAXORDINAL"
      using valid_date_toordinal[OF assms(2)] assms(3) by auto
  qed
  then obtain ds where "date_range start_date num_days = Inr ds"
    by (auto simp: date_range_def)
  then have "generate_roster employee_df start_date num_days =
      Inr (fold assign_date ds employee_df)"
    by (simp add: generate_roster_def)
  then show "\<exists>g. generate_roster employee_df start_date num_days = Inr g \<and> wf_df g \<and>
      length (rows g) = length (rows employee_df)"
    using fold_assign_date_shape[OF assms(1), of ds] by simp
  show "num_days \<le> 0 \<longrightarrow> generate_roster employee_df start_date num_days = Inr employee_df"
    by (simp add: generate_roster_def date_range_def)
qed

theorem generate_roster_total_witness:
  "wf_df example_employees \<and> valid_date \<lparr>year = 2024, month = 3, day = 1\<rparr> \<and>
   (\<exists>g. generate_roster example_employees \<lparr>year = 2024, month = 3, day = 1\<rparr> 7 = Inr g \<and>
        wf_df g \<and> length (rows g) = 2) \<and>
   generate_roster example_employees \<lparr>year = 2024, month = 3, day = 1\<rparr> 0
     = Inr example_employees"
proof -
  let ?D = "\<lparr>year = 2024, month = 3, day = 1\<rparr>"
  have wf: "wf_df example_employees" by code_simp
  have v: "valid_date ?D" by code_simp
  have b7: "7 \<le> (0::int) \<or> toordinal ?D + (7 - 1) \<le> MAXORDINAL" by code_simp
  have b0: "0 \<le> (0::int) \<or> toordinal ?D + (0 - 1) \<le> MAXORDINAL" by simp
  have len: "length (rows example_employees) = 2" by (simp add: example_employees_def)
  show ?thesis
    using generate_roster_total[OF wf v b7] generate_roster_total[OF wf v b0] wf v len
    by simp
qed

text \<open>The claim without the bound on the horizon fails on the last day of the calendar:
  the day after 9999-12-31 is not a date.\<close>

theorem generate_roster_overflow:
  "valid_date \<lparr>year = 9999, month = 12, day = 31\<rparr> \<and> wf_df example_employees \<and>
   generate_roster example_employees \<lparr>year = 9999, month = 12, day = 31\<rparr> 2
     = Inl OverflowError"
  by code_simp

section \<open>Required columns\<close>

lemma set_columns_error: "set_columns df cs = Inl e \<Longrightarrow> e = ValueError"
  by (auto simp: set_columns_def split: if_splits)

lemma resolve_columns_error:
  "resolve_columns df = Inl e \<Longrightarrow> e = IndexError \<or> e = ValueError"
  by (auto simp: resolve_columns_def repair_header_def positional_fallback_def
        project_columns_def
      split: sum.splits list.splits if_splits prod.splits dest: set_columns_error)

lemma finish_clean_cases:
  "finish_clean dc =
     (if Str ''Employee ID'' \<notin> set (columns dc) then Inl (MissingColumn ''Employee ID'')
      else if Str ''NAME'' \<notin> set (columns dc) then Inl (MissingColumn ''NAME'')
      else Inr (dropna_all (add_department dc) [Str ''Employee ID'', Str ''NAME'']))"
  by (simp add: finish_clean_def)

text \<open>
  C6. \<open>clean_employee_data\<close> ends with the missing-column error naming \<open>c\<close> exactly when
  the header repair, the column selection and the fallbacks produce a table \<open>dc\<close> and
  \<open>c\<close> is the first of Employee ID and NAME that is not among the columns of \<open>dc\<close>; the
  result is then the error, and no table.
\<close>

theorem clean_employee_data_missing_column:
  "clean_employee_data df = Inl (MissingColumn c) \<longleftrightarrow>
     (\<exists>dc. resolve_columns df = Inr dc \<and>
        ((c = ''Employee ID'' \<and> Str ''Employee ID'' \<notin> set (columns dc)) \<or>
         (c = ''NAME'' \<and> Str ''Employee ID'' \<in> set (columns dc)
            \<and> Str ''NAME'' \<notin> set (columns dc))))"
proof (cases "resolve_columns df")
  case (Inl e)
  then show ?thesis
    using resolve_columns_error[OF Inl] by (auto simp: clean_employee_data_def)
next
  case (Inr dc)
  then show ?thesis
    by (auto simp: clean_employee_data_def finish_clean_cases)
qed

theorem clean_employee_data_missing_column_witness:
  "resolve_columns example_no_name = Inr example_no_name \<and>
   Str ''Employee ID'' \<in> set (columns example_no_name) \<and>
   Str ''NAME'' \<notin> set (columns example_no_name) \<and>
   clean_employee_data example_no_name = Inl (MissingColumn ''NAME'')"
proof -
  have r: "resolve_columns example_no_name = Inr example_no_name" by code_simp
  have e: "Str ''Employee ID'' \<in> set (columns example_no_name)"
    and n: "Str ''NAME'' \<notin> set (columns example_no_name)"
    by (simp_all add: example_no_name_def)
  have "clean_employee_data example_no_name = Inl (MissingColumn ''NAME'')"
    using clean_employee_data_missing_column[of example_no_name "''NAME''"] r e n by simp
  with r e n show ?thesis by simp
qed

section \<open>Row filtering\<close>

lemma dropna_all_columns: "columns (dropna_all df ls) = columns df"
  by (simp add: dropna_all_def Let_def)

lemma dropna_all_rows:
  "rows (dropna_all df ls) =
     filter (\<lambda>r. \<exists>p < length (columns df). columns df ! p \<in> set ls \<and> r ! p \<noteq> NaN) (rows df)"
  by (auto simp: dropna_all_def Let_def list_all_iff intro!: filter_cong)


text \<open>
  C5. When \<open>clean_employee_data\<close> returns a table, its rows are the rows of the resolved
  table (with the Department column added when it was absent), in the same order and
  unchanged, except exactly those in which every Employee ID and NAME cell is missing:
  a row with one of the two present stays.
\<close>

theorem clean_employee_data_rows:
  assumes "clean_employee_data df = Inr out"
  shows "\<exists>dc. resolve_columns df = Inr dc \<and>
           columns out = columns (add_department dc) \<and>
           rows out =
             filter (\<lambda>r. \<exists>p < length (columns out).
                            (columns out ! p = Str ''Employee ID'' \<or> columns out ! p = Str ''NAME'')
                            \<and> r ! p \<noteq> NaN)
                    (rows (add_department dc))"
proof -
  from assms obtain dc where dc: "resolve_columns df = Inr dc"
    and out: "out = dropna_all (add_department dc) [Str ''Employee ID'', Str ''NAME'']"
    by (auto simp: clean_employee_data_def finish_clean_cases split: sum.splits if_splits)
  show ?thesis
    using dc unfolding out by (simp add: dropna_all_columns dropna_all_rows)
qed

theorem clean_employee_data_rows_witness:
  "clean_employee_data example_partial_rows = Inr example_partial_clean \<and>
   (\<exists>dc. resolve_columns example_partial_rows = Inr dc \<and>
      columns example_partial_clean = columns (add_department dc) \<and>
      rows example_partial_clean =
        filter (\<lambda>r. \<exists>p < length (columns example_partial_clean).
                  (columns example_partial_clean ! p = Str ''Employee ID''
                   \<or> columns example_partial_clean ! p = Str ''NAME'')
                  \<and> r ! p \<noteq> NaN)
               (rows (add_department dc)))"
proof -
  have c: "clean_employee_data example_partial_rows = Inr example_partial_clean"
    by code_simp
  from c clean_employee_data_rows[OF c] show ?thesis ..
qed




section \<open>The positional layout\<close>

lemma label_positions_append:
  assumes k: "k \<notin> set ys"
  shows "label_positions (xs @ ys) k = label_positions xs k"
proof -
  have split: "[0..<length xs + length ys] = [0..<length xs] @ [length xs..<length xs + length ys]"
    by (rule upt_add_eq_append) simp
  have a: "filter (\<lambda>p. (xs @ ys) ! p = k) [0..<length xs] = filter (\<lambda>p. xs ! p = k) [0..<length xs]"
    by (rule filter_cong) (simp_all add: nth_append)
  have "\<And>p. p \<in> set [length xs..<length xs + length ys] \<Longrightarrow> (xs @ ys) ! p \<noteq> k"
  proof -
    fix p assume "p \<in> set [length xs..<length xs + length ys]"
    then have p: "length xs \<le> p" "p - length xs < length ys" by auto
    then have "(xs @ ys) ! p = ys ! (p - length xs)" by (simp add: nth_append)
    moreover have "ys ! (p - length xs) \<in> set ys" using p(2) by (rule nth_mem)
    ultimately show "(xs @ ys) ! p \<noteq> k" using k by metis
  qed
  then have b: "filter (\<lambda>p. (xs @ ys) ! p = k) [length xs..<length xs + length ys] = []"
    unfolding filter_empty_conv by blast
  have "label_positions (xs @ ys) k = filter (\<lambda>p. (xs @ ys) ! p = k) [0..<length xs + length ys]"
    by (simp add: label_positions_def)
  also have "\<dots> = filter (\<lambda>p. xs ! p = k) [0..<length xs]"
    unfolding split filter_append a b by simp
  finally show ?thesis by (simp add: label_positions_def)
qed

lemma keep_label_known:
  "keep_label (Str ''Employee ID'')" "keep_label (Str ''NAME'')" "keep_label (Str ''Department'')"
  by (simp_all add: keep_label_def strip_def is_space_def startswith_def)

lemma no_kept_label:
  assumes "filter keep_label cs = []"
  shows "Str ''Employee ID'' \<notin> set cs" "Str ''NAME'' \<notin> set cs" "Str ''Department'' \<notin> set cs"
  using assms keep_label_known by (auto simp: filter_empty_conv)

lemma six_positions:
  "label_positions [Str ''Employee ID'', Str ''User ID'', Str ''NAME'', Str ''Status'',
                     Str ''Department'', Str ''WINS''] (Str ''Employee ID'') = [0]"
  "label_positions [Str ''Employee ID'', Str ''User ID'', Str ''NAME'', Str ''Status'',
                     Str ''Department'', Str ''WINS''] (Str ''NAME'') = [2]"
  "label_positions [Str ''Employee ID'', Str ''User ID'', Str ''NAME'', Str ''Status'',
                     Str ''Department'', Str ''WINS''] (Str ''Department'') = [4]"
  by (code_simp, code_simp, code_simp)

lemma getitem_cols_three:
  assumes "label_positions (columns df) a = [i]" "label_positions (columns df) b = [j]"
    "label_positions (columns df) c = [k]"
  shows "getitem_cols df [a, b, c] =
           \<lparr>columns = [columns df ! i, columns df ! j, columns df ! k],
            rows = map (\<lambda>r. [r ! i, r ! j, r ! k]) (rows df)\<rparr>"
  by (simp add: getitem_cols_def assms)

text \<open>
  C7, as the code has it. For every raw table whose labels, after the header repair,
  match none of the known names and that has at least six columns, the fallback labels
  the first six columns Employee ID, User ID, NAME, Status, Department, WINS by position,
  and the records are made of the first, third and fifth column, as Employee ID, NAME
  and Department (less the rows in which Employee ID and NAME are both missing).
\<close>

theorem positional_layout_six:
  assumes "repair_header df = Inr df1"
    and "filter keep_label (columns df1) = []"
    and "6 \<le> length (columns df1)"
  shows "clean_employee_data df =
           Inr (dropna_all
                  \<lparr>columns = [Str ''Employee ID'', Str ''NAME'', Str ''Department''],
                   rows = map (\<lambda>r. [r ! 0, r ! 2, r ! 4]) (rows df1)\<rparr>
                  [Str ''Employee ID'', Str ''NAME''])"
proof -
  define six where "six = [Str ''Employee ID'', Str ''User ID'', Str ''NAME'', Str ''Status'',
               Str ''Department'', Str ''WINS'']"
  define cs2 where "cs2 = six @ drop 6 (columns df1)"
  define df2 where "df2 = df1\<lparr>columns := cs2\<rparr>"
  let ?dc = "\<lparr>columns = [Str ''Employee ID'', Str ''NAME'', Str ''Department''],
              rows = map (\<lambda>r. [r ! 0, r ! 2, r ! 4]) (rows df1)\<rparr>"
  have rest: "Str ''Employee ID'' \<notin> set (drop 6 (columns df1))"
      "Str ''NAME'' \<notin> set (drop 6 (columns df1))"
      "Str ''Department'' \<notin> set (drop 6 (columns df1))"
    using no_kept_label[OF assms(2)] by (auto dest: in_set_dropD)
  have len: "length cs2 = length (columns df1)"
    using assms(3) by (simp add: cs2_def six_def)
  have fb: "positional_fallback df1 [] =
      Inr (df2, [Str ''Employee ID'', Str ''NAME'', Str ''Department''])"
    using assms(3) len
    by (simp add: positional_fallback_def set_columns_def df2_def cs2_def six_def)
  have cdf2: "columns df2 = six @ drop 6 (columns df1)"
    by (simp add: df2_def cs2_def)
  have six: "label_positions six (Str ''Employee ID'') = [0]"
      "label_positions six (Str ''NAME'') = [2]"
      "label_positions six (Str ''Department'') = [4]"
    unfolding six_def by (rule six_positions)+
  have pos: "label_positions (columns df2) (Str ''Employee ID'') = [0]"
      "label_positions (columns df2) (Str ''NAME'') = [2]"
      "label_positions (columns df2) (Str ''Department'') = [4]"
    unfolding cdf2 label_positions_append[OF rest(1)] label_positions_append[OF rest(2)]
      label_positions_append[OF rest(3)] by (rule six)+
  have nth: "columns df2 ! 0 = Str ''Employee ID''" "columns df2 ! 2 = Str ''NAME''"
      "columns df2 ! 4 = Str ''Department''"
    by (simp_all add: df2_def cs2_def six_def)
  have get: "getitem_cols df2 [Str ''Employee ID'', Str ''NAME'', Str ''Department''] = ?dc"
    unfolding getitem_cols_three[OF pos] nth by (simp add: df2_def)
  have res: "resolve_columns df = Inr ?dc"
    using assms(1,2) fb get by (simp add: resolve_columns_def project_columns_def)
  have fin: "finish_clean ?dc = Inr (dropna_all ?dc [Str ''Employee ID'', Str ''NAME''])"
    by (simp add: finish_clean_def add_department_def)
  show ?thesis using res fin by (simp add: clean_employee_data_def)
qed

theorem positional_layout_six_witness:
  "repair_header example_six_unknown = Inr example_six_unknown \<and>
   filter keep_label (columns example_six_unknown) = [] \<and>
   6 \<le> length (columns example_six_unknown) \<and>
   clean_employee_data example_six_unknown =
     Inr \<lparr>columns = [Str ''Employee ID'', Str ''NAME'', Str ''Department''],
          rows = [[Str ''a'', Str ''c'', Str ''e'']]\<rparr>"
proof -
  have h: "repair_header example_six_unknown = Inr example_six_unknown" by code_simp
  have k: "filter keep_label (columns example_six_unknown) = []" by code_simp
  have n: "6 \<le> length (columns example_six_unknown)" by (simp add: example_six_unknown_def)
  have d: "dropna_all
             \<lparr>columns = [Str ''Employee ID'', Str ''NAME'', Str ''Department''],
              rows = map (\<lambda>r. [r ! 0, r ! 2, r ! 4]) (rows example_six_unknown)\<rparr>
             [Str ''Employee ID'', Str ''NAME'']
           = \<lparr>columns = [Str ''Employee ID'', Str ''NAME'', Str ''Department''],
              rows = [[Str ''a'', Str ''c'', Str ''e'']]\<rparr>"
    by code_simp
  show ?thesis
    using positional_layout_six[OF h k n] h k n d by simp
qed

text \<open>The first three columns are not what the records are made of: in the example the
  NAME is the cell of the third column, not of the second.\<close>

theorem positional_layout_not_first_three:
  "clean_employee_data example_six_unknown =
     Inr \<lparr>columns = [Str ''Employee ID'', Str ''NAME'', Str ''Department''],
          rows = [[Str ''a'', Str ''c'', Str ''e'']]\<rparr> \<and>
   clean_employee_data example_six_unknown \<noteq>
     Inr \<lparr>columns = [Str ''Employee ID'', Str ''NAME'', Str ''Department''],
          rows = [[Str ''a'', Str ''b'', Str ''c'']]\<rparr>"
  by code_simp

section \<open>A table without rows\<close>

text \<open>
  C10. On a raw table without data rows \<open>clean_employee_data\<close> returns no table, empty
  or not: the header repair reads the first row, and that raises \<open>IndexError\<close>.
\<close>

theorem clean_employee_data_empty:
  "clean_employee_data \<lparr>columns = cs, rows = []\<rparr> = Inl IndexError"
  by (simp add: clean_employee_data_def resolve_columns_def repair_header_def)

section \<open>Header repair\<close>

lemma startswith_append_notin:
  assumes "c \<notin> set sub"
  shows "startswith (zs @ c # ys) sub = startswith zs sub"
proof (cases "length sub \<le> length zs")
  case True
  then show ?thesis by (simp add: startswith_def)
next
  case False
  then have lt: "length zs < length sub" by simp
  have "take (length sub) (zs @ c # ys) \<noteq> sub"
  proof
    assume eq: "take (length sub) (zs @ c # ys) = sub"
    have "take (length sub) (zs @ c # ys) ! length zs = (zs @ c # ys) ! length zs"
      using lt by (rule nth_take)
    also have "(zs @ c # ys) ! length zs = c" by simp
    finally have "sub ! length zs = c" by (simp only: eq)
    then have "c \<in> set sub" using lt nth_mem by metis
    with assms show False by simp
  qed
  moreover have "take (length sub) zs \<noteq> sub"
  proof
    assume "take (length sub) zs = sub"
    then have "length (take (length sub) zs) = length sub" by simp
    with lt show False by simp
  qed
  ultimately show ?thesis by (simp add: startswith_def)
qed

lemma str_contains_split:
  assumes "c \<notin> set sub"
  shows "str_contains sub (xs @ c # ys) \<longleftrightarrow> str_contains sub xs \<or> str_contains sub ys"
proof (induction xs)
  case Nil
  have "startswith (c # ys) sub \<longleftrightarrow> sub = []"
    using startswith_append_notin[OF assms, of "[]" ys] by (auto simp: startswith_def)
  then show ?case by auto
next
  case (Cons x xs)
  have "startswith (x # xs @ c # ys) sub = startswith (x # xs) sub"
    using startswith_append_notin[OF assms, of "x # xs" ys] by simp
  then show ?case using Cons.IH by auto
qed

lemma str_contains_set: "str_contains sub s \<Longrightarrow> set sub \<subseteq> set s"
proof (induction s)
  case Nil
  then show ?case by simp
next
  case (Cons c cs)
  show ?case
  proof (cases "startswith (c # cs) sub")
    case True
    then have "sub = take (length sub) (c # cs)" by (simp add: startswith_def)
    then have "set sub \<subseteq> set (c # cs)" by (metis set_take_subset)
    then show ?thesis .
  next
    case False
    then have "str_contains sub cs" using Cons.prems by simp
    then show ?thesis using Cons.IH by auto
  qed
qed

lemma marker_joint:
  assumes u: "u \<noteq> []" "last u \<notin> set ''Employee ID''"
    and v: "v \<noteq> []" "hd v \<notin> set ''Employee ID''"
  shows "str_contains ''Employee ID'' (u @ '' '' @ v) \<longleftrightarrow>
           str_contains ''Employee ID'' u \<or> str_contains ''Employee ID'' v"
proof -
  let ?M = "''Employee ID''"
  obtain a q where ua: "u = a @ [q]" and q: "q \<notin> set ?M"
    using u by (metis append_butlast_last_id)
  obtain q' b where vb: "v = q' # b" and q': "q' \<notin> set ?M"
    using v by (metis list.collapse)
  have "str_contains ?M (u @ '' '' @ v) = str_contains ?M (a @ q # ('' '' @ q' # b))"
    by (simp add: ua vb)
  also have "\<dots> \<longleftrightarrow> str_contains ?M a \<or> str_contains ?M ('' '' @ q' # b)"
    by (rule str_contains_split[OF q])
  also have "str_contains ?M ('' '' @ q' # b) \<longleftrightarrow> str_contains ?M '' '' \<or> str_contains ?M b"
    by (rule str_contains_split[OF q'])
  also have "str_contains ?M '' '' = False" by (simp add: startswith_def)
  finally have lhs: "str_contains ?M (u @ '' '' @ v) \<longleftrightarrow> str_contains ?M a \<or> str_contains ?M b"
    by simp
  have "str_contains ?M u \<longleftrightarrow> str_contains ?M a \<or> str_contains ?M []"
    unfolding ua by (rule str_contains_split[OF q])
  then have 1: "str_contains ?M u \<longleftrightarrow> str_contains ?M a" by simp
  have "str_contains ?M ([] @ q' # b) \<longleftrightarrow> str_contains ?M [] \<or> str_contains ?M b"
    by (rule str_contains_split[OF q'])
  then have 2: "str_contains ?M v \<longleftrightarrow> str_contains ?M b" by (simp add: vb)
  show ?thesis using lhs 1 2 by simp
qed

lemma show_nat_digits: "show_nat n \<noteq> [] \<and> set (show_nat n) \<subseteq> set ''0123456789''"
proof (induction n rule: show_nat.induct)
  case (1 n)
  have d: "\<And>k. k < 10 \<Longrightarrow> digit_char k \<in> set ''0123456789''"
    unfolding digit_char_def by (rule nth_mem) simp
  show ?case
  proof (cases "n < 10")
    case True
    then show ?thesis using d[of n] by (subst show_nat.simps, subst (2) show_nat.simps) simp
  next
    case False
    have m: "digit_char (n mod 10) \<in> set ''0123456789''" by (rule d) simp
    show ?thesis
      using False 1[OF False] m by (subst show_nat.simps, subst (2) show_nat.simps) simp
  qed
qed

lemma digits_plain: "c \<in> set ''0123456789'' \<Longrightarrow> c \<notin> set ''Employee ID'' \<and> c \<noteq> CHR ''-''"
  by auto

lemma show_nat_plain:
  "show_nat n \<noteq> [] \<and> (\<forall>c \<in> set (show_nat n). c \<notin> set ''Employee ID'')"
proof -
  have "\<And>c. c \<in> set (show_nat n) \<Longrightarrow> c \<notin> set ''Employee ID''"
  proof -
    fix c assume "c \<in> set (show_nat n)"
    then have "c \<in> set ''0123456789''" using show_nat_digits[of n] by blast
    then show "c \<notin> set ''Employee ID''" using digits_plain by blast
  qed
  then show ?thesis using show_nat_digits[of n] by blast
qed

lemma show_int_plain:
  "show_int i \<noteq> [] \<and> (\<forall>c \<in> set (show_int i). c \<notin> set ''Employee ID'')"
proof (cases "i < 0")
  case True
  then have "show_int i = CHR ''-'' # show_nat (nat (- i))" by (simp add: show_int_def)
  moreover have "CHR ''-'' \<notin> set ''Employee ID''" by simp
  ultimately show ?thesis using show_nat_plain[of "nat (- i)"] by (simp del: set_simps, simp)
next
  case False
  then have "show_int i = show_nat (nat i)" by (simp add: show_int_def)
  then show ?thesis using show_nat_plain[of "nat i"] by (simp del: set_simps)
qed

lemma py_repr_ends:
  "py_repr e \<noteq> [] \<and> hd (py_repr e) \<notin> set ''Employee ID'' \<and> last (py_repr e) \<notin> set ''Employee ID''"
proof (cases e)
  case (Str s)
  then show ?thesis by simp
next
  case (Num i)
  have ne: "show_int i \<noteq> []" and plain: "\<forall>c \<in> set (show_int i). c \<notin> set ''Employee ID''"
    using show_int_plain[of i] by simp_all
  have "hd (show_int i) \<in> set (show_int i)" "last (show_int i) \<in> set (show_int i)"
    using ne by simp_all
  then have "hd (show_int i) \<notin> set ''Employee ID''" "last (show_int i) \<notin> set ''Employee ID''"
    using plain by blast+
  then show ?thesis using Num ne by (simp del: set_simps)
next
  case NaN
  then show ?thesis by simp
qed

lemma py_repr_marker:
  "str_contains ''Employee ID'' (py_repr e) \<longleftrightarrow> (\<exists>s. e = Str s \<and> str_contains ''Employee ID'' s)"
proof (cases e)
  case (Str s)
  let ?M = "''Employee ID''"
  have q: "CHR 0x27 \<notin> set ?M" by simp
  have "str_contains ?M ([] @ CHR 0x27 # (s @ [CHR 0x27])) \<longleftrightarrow>
      str_contains ?M [] \<or> str_contains ?M (s @ [CHR 0x27])"
    by (rule str_contains_split[OF q])
  moreover have "str_contains ?M (s @ CHR 0x27 # []) \<longleftrightarrow> str_contains ?M s \<or> str_contains ?M []"
    by (rule str_contains_split[OF q])
  ultimately show ?thesis using Str by simp
next
  case (Num i)
  have "\<not> str_contains ''Employee ID'' (show_int i)"
  proof
    assume "str_contains ''Employee ID'' (show_int i)"
    then have "set ''Employee ID'' \<subseteq> set (show_int i)" by (rule str_contains_set)
    moreover have "CHR ''E'' \<in> set ''Employee ID''" by simp
    ultimately have "CHR ''E'' \<in> set (show_int i)" by blast
    then have "CHR ''E'' \<notin> set ''Employee ID''" using show_int_plain[of i] by blast
    then show False by simp
  qed
  then show ?thesis using Num by simp
next
  case NaN
  then show ?thesis by (simp add: startswith_def)
qed

text \<open>Words joined by single spaces, none of which touches the marker at its ends.\<close>

lemma join_words_marker:
  "ws \<noteq> [] \<Longrightarrow>
   (\<And>w. w \<in> set ws \<Longrightarrow>
      w \<noteq> [] \<and> hd w \<notin> set ''Employee ID'' \<and> last w \<notin> set ''Employee ID'') \<Longrightarrow>
   join_space ws \<noteq> [] \<and>
   hd (join_space ws) \<notin> set ''Employee ID'' \<and>
   (str_contains ''Employee ID'' (join_space ws) \<longleftrightarrow>
      (\<exists>w \<in> set ws. str_contains ''Employee ID'' w))"
proof (induction ws)
  case Nil
  then show ?case by simp
next
  case (Cons w ws)
  have w: "w \<noteq> []" "hd w \<notin> set ''Employee ID''" "last w \<notin> set ''Employee ID''"
    using Cons.prems(2)[of w] by simp_all
  show ?case
  proof (cases ws)
    case Nil
    then show ?thesis using w by simp
  next
    case (Cons w' ws')
    let ?J = "join_space ws"
    have ne: "ws \<noteq> []" using Cons by simp
    have plain: "\<And>v. v \<in> set ws \<Longrightarrow>
        v \<noteq> [] \<and> hd v \<notin> set ''Employee ID'' \<and> last v \<notin> set ''Employee ID''"
      using Cons.prems(2) by simp
    have IH: "?J \<noteq> []" "hd ?J \<notin> set ''Employee ID''"
      "str_contains ''Employee ID'' ?J \<longleftrightarrow> (\<exists>v \<in> set ws. str_contains ''Employee ID'' v)"
      using Cons.IH[OF ne plain] by simp_all
    have eq: "join_space (w # ws) = w @ '' '' @ ?J"
      using Cons by simp
    have "str_contains ''Employee ID'' (w @ '' '' @ ?J) \<longleftrightarrow>
        str_contains ''Employee ID'' w \<or> str_contains ''Employee ID'' ?J"
      using w(1,3) IH(1,2) by (rule marker_joint)
    then show ?thesis
      unfolding eq using IH(3) w by (simp add: hd_append)
  qed
qed

text \<open>The cells of a row that \<open>str\<close> prints.\<close>

lemma np_words_ends:
  "w \<in> set (np_words r) \<Longrightarrow>
     w \<noteq> [] \<and> hd w \<notin> set ''Employee ID'' \<and> last w \<notin> set ''Employee ID''"
  using py_repr_ends by (auto simp: np_words_def split: if_splits)

lemma np_words_marker:
  "(\<exists>w \<in> set (np_words r). str_contains ''Employee ID'' w) \<longleftrightarrow>
     (\<exists>s. Str s \<in> set (if 1000 < length r then take 3 r @ drop (length r - 3) r else r)
          \<and> str_contains ''Employee ID'' s)"
proof (cases "1000 < length r")
  case True
  have dots: "\<not> str_contains ''Employee ID'' ''...''" by (simp add: startswith_def)
  have "(\<exists>w \<in> set (np_words r). str_contains ''Employee ID'' w) \<longleftrightarrow>
      (\<exists>e \<in> set (take 3 r @ drop (length r - 3) r). str_contains ''Employee ID'' (py_repr e))"
    using True dots by (auto simp: np_words_def)
  also have "\<dots> \<longleftrightarrow> (\<exists>s. Str s \<in> set (take 3 r @ drop (length r - 3) r)
      \<and> str_contains ''Employee ID'' s)"
    unfolding py_repr_marker by blast
  finally show ?thesis using True by simp
next
  case False
  have "(\<exists>w \<in> set (np_words r). str_contains ''Employee ID'' w) \<longleftrightarrow>
      (\<exists>e \<in> set r. str_contains ''Employee ID'' (py_repr e))"
    using False by (auto simp: np_words_def)
  also have "\<dots> \<longleftrightarrow> (\<exists>s. Str s \<in> set r \<and> str_contains ''Employee ID'' s)"
    unfolding py_repr_marker by blast
  finally show ?thesis using False by simp
qed

lemma np_words_Nil: "np_words r = [] \<longleftrightarrow> r = []"
  by (auto simp: np_words_def)

lemma np_str_marker:
  "str_contains ''Employee ID'' (np_str r) \<longleftrightarrow>
     (\<exists>s. Str s \<in> set (if 1000 < length r then take 3 r @ drop (length r - 3) r else r)
          \<and> str_contains ''Employee ID'' s)"
proof -
  let ?M = "''Employee ID''"
  let ?J = "join_space (np_words r)"
  have "str_contains ?M ([] @ CHR ''['' # (?J @ '']'')) \<longleftrightarrow>
      str_contains ?M [] \<or> str_contains ?M (?J @ '']'')"
    by (rule str_contains_split) simp
  moreover have "str_contains ?M (?J @ CHR '']'' # []) \<longleftrightarrow> str_contains ?M ?J \<or> str_contains ?M []"
    by (rule str_contains_split) simp
  ultimately have 1: "str_contains ?M (np_str r) \<longleftrightarrow> str_contains ?M ?J"
    by (simp add: np_str_def)
  show ?thesis
  proof (cases "r = []")
    case True
    then show ?thesis using 1 by (simp add: np_words_def)
  next
    case False
    then have ne: "np_words r \<noteq> []" by (simp add: np_words_Nil)
    have "str_contains ?M ?J \<longleftrightarrow> (\<exists>w \<in> set (np_words r). str_contains ?M w)"
      using join_words_marker[OF ne np_words_ends[of _ r]] by blast
    then show ?thesis using 1 np_words_marker[of r] by simp
  qed
qed

lemma str_contains_self: "str_contains s s"
  by (cases s) (simp_all add: startswith_def)

lemma clean_employee_data_repaired:
  "clean_employee_data df =
     (case repair_header df of Inl e \<Rightarrow> Inl e | Inr df1 \<Rightarrow> clean_repaired df1)"
  by (simp add: clean_employee_data_def resolve_columns_def clean_repaired_def
      split: sum.splits prod.splits)

text \<open>
  C8. For a rectangular table with a first data row \<open>r\<close>: when \<open>r\<close> has a cell equal to
  Employee ID, or Employee ID occurs in the printed form of the values of \<open>r\<close>,
  \<open>clean_employee_data\<close> makes \<open>r\<close> the column labels, removes it from the data rows and
  goes on with that table; otherwise it goes on with the labels and all the rows as
  they are. The condition holds exactly when a cell of \<open>r\<close> equals Employee ID or a
  string cell among those printed contains it (all cells, up to 1000 columns).
\<close>

theorem clean_employee_data_header_repair:
  assumes "length r = length cs"
  shows "repair_header \<lparr>columns = cs, rows = r # rs\<rparr> =
           Inr (if Str ''Employee ID'' \<in> set r \<or> str_contains ''Employee ID'' (np_str r)
                then \<lparr>columns = r, rows = rs\<rparr>
                else \<lparr>columns = cs, rows = r # rs\<rparr>)
         \<and> clean_employee_data \<lparr>columns = cs, rows = r # rs\<rparr> =
             clean_repaired
               (if Str ''Employee ID'' \<in> set r \<or> str_contains ''Employee ID'' (np_str r)
                then \<lparr>columns = r, rows = rs\<rparr>
                else \<lparr>columns = cs, rows = r # rs\<rparr>)
         \<and> (Str ''Employee ID'' \<in> set r \<or> str_contains ''Employee ID'' (np_str r) \<longleftrightarrow>
              Str ''Employee ID'' \<in> set r \<or>
              (\<exists>s. Str s \<in> set (if 1000 < length r then take 3 r @ drop (length r - 3) r
                                 else r)
                   \<and> str_contains ''Employee ID'' s))"
proof -
  let ?T = "\<lparr>columns = cs, rows = r # rs\<rparr>"
  let ?C = "Str ''Employee ID'' \<in> set r \<or> str_contains ''Employee ID'' (np_str r)"
  let ?D = "if ?C then \<lparr>columns = r, rows = rs\<rparr> else ?T"
  have h: "repair_header ?T = Inr ?D"
    using assms by (simp add: repair_header_def set_columns_def marker_in_row_def)
  have c: "clean_employee_data ?T = clean_repaired ?D"
    unfolding clean_employee_data_repaired h by simp
  have e: "?C \<longleftrightarrow> Str ''Employee ID'' \<in> set r \<or>
      (\<exists>s. Str s \<in> set (if 1000 < length r then take 3 r @ drop (length r - 3) r else r)
           \<and> str_contains ''Employee ID'' s)"
    unfolding np_str_marker ..
  from h c e show ?thesis by (intro conjI)
qed

theorem clean_employee_data_header_repair_witness:
  "length [Str ''Employee ID'', Str ''NAME''] = length [Str ''Unnamed: 0'', Str ''Unnamed: 1''] \<and>
   repair_header example_banner =
     Inr \<lparr>columns = [Str ''Employee ID'', Str ''NAME''], rows = [[Str ''E1'', Str ''Alice'']]\<rparr> \<and>
   clean_employee_data example_banner =
     Inr \<lparr>columns = [Str ''Employee ID'', Str ''NAME'', Str ''Department''],
          rows = [[Str ''E1'', Str ''Alice'', Str ''Inbound'']]\<rparr>"
proof -
  have l: "length [Str ''Employee ID'', Str ''NAME''] =
      length [Str ''Unnamed: 0'', Str ''Unnamed: 1'']" by simp
  have r: "clean_repaired
      \<lparr>columns = [Str ''Employee ID'', Str ''NAME''], rows = [[Str ''E1'', Str ''Alice'']]\<rparr> =
      Inr \<lparr>columns = [Str ''Employee ID'', Str ''NAME'', Str ''Department''],
           rows = [[Str ''E1'', Str ''Alice'', Str ''Inbound'']]\<rparr>"
    by code_simp
  show ?thesis
    using clean_employee_data_header_repair[OF l, of "[[Str ''E1'', Str ''Alice'']]"] r
    by (simp add: example_banner_def)
qed

end
